theory Spec2Isabelle
  imports Main
begin

section \<open>JavaScript values, promises and the world they run in\<close>

text \<open>
  The module \<^verbatim>\<open>src/core/PRPromise.js\<close> defines
  \<^verbatim>\<open>type PRPromise<R,A> = (r : R) => Promise<A>\<close>
  and a handful of combinators over it. The combinators never look inside a value
  except for the test \<^verbatim>\<open>a === null\<close> of \<^verbatim>\<open>forEveryFirst\<close>, so the values are kept
  small: the primitives, and a reference for every object (numbers are abstracted to
  integers; no combinator computes on them). A \<open>jsval\<close> is never a promise or another
  thenable: the objects behind the references hold data properties only (see \<open>jsobject\<close>
  below), so none of them has a callable \<^verbatim>\<open>then\<close>. A promise can only be fulfilled with
  such a value.
\<close>

datatype jsval = JUndefined | JNull | JBool bool | JNum int | JStr string | JRef nat

text \<open>
  A promise settles exactly once: it is fulfilled with a value or rejected with a reason
  (\<^verbatim>\<open>Promise.reject()\<close> without argument rejects with \<^verbatim>\<open>undefined\<close>).
\<close>

datatype outcome = Resolved jsval | Rejected jsval

text \<open>
  The work behind a promise (a request to the server, a counter bumped by a test double)
  acts on the world outside the module. A promise is modelled by what it does to that
  world from the moment it is created until it settles; \<open>'w\<close> is the type of the world.
  The module starts one promise at a time and always chains on the one it has just created,
  so the world is threaded through in the order in which the callbacks run.
\<close>

datatype 'w promise = Promise (settle: "'w \<Rightarrow> outcome \<times> 'w")

type_synonym ('r, 'w) prpromise = "'r \<Rightarrow> 'w promise"

definition fulfilled :: "jsval \<Rightarrow> 'w promise" where
  "fulfilled a = Promise (\<lambda>w. (Resolved a, w))"

text \<open>
  \<^verbatim>\<open>Promise.resolve(a)\<close> takes any argument: a promise is returned as it is and another
  thenable is followed, so in both cases the result settles as the argument does; every
  other value fulfils the new promise.
\<close>

datatype 'w resolvable = Plain jsval | Thenable "'w promise"

fun promise_resolve :: "'w resolvable \<Rightarrow> 'w promise" where
  "promise_resolve (Plain a) = fulfilled a"
| "promise_resolve (Thenable p) = p"

definition promise_reject :: "jsval \<Rightarrow> 'w promise" where
  "promise_reject e = Promise (\<lambda>w. (Rejected e, w))"

text \<open>
  \<^verbatim>\<open>p.then(cb)\<close>: the callback runs on fulfilment only, and the new promise adopts the
  promise the callback returns; a rejection passes through with its reason.
\<close>

definition promise_then :: "'w promise \<Rightarrow> (jsval \<Rightarrow> 'w promise) \<Rightarrow> 'w promise" where
  "promise_then p cb = Promise (\<lambda>w.
     case settle p w of
       (Resolved a, w') \<Rightarrow> settle (cb a) w'
     | (Rejected e, w') \<Rightarrow> (Rejected e, w'))"

text \<open>
  \<^verbatim>\<open>p.catch(cb)\<close>: the callback runs on rejection only; a fulfilment passes through.
\<close>

definition promise_catch :: "'w promise \<Rightarrow> (jsval \<Rightarrow> 'w promise) \<Rightarrow> 'w promise" where
  "promise_catch p cb = Promise (\<lambda>w.
     case settle p w of
       (Resolved a, w') \<Rightarrow> (Resolved a, w')
     | (Rejected e, w') \<Rightarrow> settle (cb e) w')"

section \<open>The combinators of PRPromise.js\<close>

text \<open>
  \<^verbatim>\<open>export const map = (fn, pr) => r => pr(r).then(a => fn(a))\<close>

  The callback returns a plain value, with which \<^verbatim>\<open>then\<close> fulfils the new promise.
\<close>

definition map_pr :: "(jsval \<Rightarrow> jsval) \<Rightarrow> ('r, 'w) prpromise \<Rightarrow> ('r, 'w) prpromise" where
  "map_pr fn pr = (\<lambda>r. promise_then (pr r) (\<lambda>a. fulfilled (fn a)))"

text \<open>\<^verbatim>\<open>export const pure = (a) => (_) => Promise.resolve(a)\<close>\<close>

definition pure :: "'w resolvable \<Rightarrow> ('r, 'w) prpromise" where
  "pure a = (\<lambda>_. promise_resolve a)"

text \<open>
  \<^verbatim>\<open>export const then = (pr, ...fns) => r =>
    fns.reduce((accPr, f) => accPr.then(b => f(b)(r)), pr(r))\<close>
\<close>

definition then_pr ::
  "('r, 'w) prpromise \<Rightarrow> (jsval \<Rightarrow> ('r, 'w) prpromise) list \<Rightarrow> ('r, 'w) prpromise" where
  "then_pr pr fns = (\<lambda>r. foldl (\<lambda>accPr f. promise_then accPr (\<lambda>b. f b r)) (pr r) fns)"

text \<open>
  \<^verbatim>\<open>export const empty = () => Promise.reject()\<close>

  \<^verbatim>\<open>empty\<close> has no formal parameter and ignores whatever it is called with. The module
  uses it uncalled, as the PRPromise itself: \<^verbatim>\<open>empty(r)\<close> in \<^verbatim>\<open>when\<close>, and \<^verbatim>\<open>empty\<close> as
  the seed and as the result of \<^verbatim>\<open>rejectOnNull\<close> in \<^verbatim>\<open>forEveryFirst\<close>.
\<close>

definition empty_pr :: "'x \<Rightarrow> 'w promise" where
  "empty_pr = (\<lambda>_. promise_reject JUndefined)"

text \<open>
  \<^verbatim>\<open>export const or = (pr1, pr2) => (r) => pr1(r).catch(() => pr2(r))\<close>
\<close>

definition or_pr :: "('r, 'w) prpromise \<Rightarrow> ('r, 'w) prpromise \<Rightarrow> ('r, 'w) prpromise" where
  "or_pr pr1 pr2 = (\<lambda>r. promise_catch (pr1 r) (\<lambda>_. pr2 r))"

text \<open>\<^verbatim>\<open>export const chain = (f,g) => (a) => then(f(a), g)\<close>\<close>

definition chain ::
  "('a \<Rightarrow> ('r, 'w) prpromise) \<Rightarrow> (jsval \<Rightarrow> ('r, 'w) prpromise) \<Rightarrow> 'a \<Rightarrow> ('r, 'w) prpromise" where
  "chain f g = (\<lambda>a. then_pr (f a) [g])"

text \<open>
  \<^verbatim>\<open>export const forEveryFirst = (f, xs) => {
    const rejectOnNull = (a) => a === null ? empty : pure(a)
    return xs.reduce
    ( (p, x) => or(p, then(f(x), rejectOnNull))
    , empty
    )
  }\<close>
\<close>

definition rejectOnNull :: "jsval \<Rightarrow> ('r, 'w) prpromise" where
  "rejectOnNull a = (if a = JNull then empty_pr else pure (Plain a))"

definition forEveryFirst :: "('a \<Rightarrow> ('r, 'w) prpromise) \<Rightarrow> 'a list \<Rightarrow> ('r, 'w) prpromise" where
  "forEveryFirst f xs = foldl (\<lambda>p x. or_pr p (then_pr (f x) [rejectOnNull])) empty_pr xs"

text \<open>
  \<^verbatim>\<open>export const when = (f, a) => (r) => f(r) ? pure(a)(r) : empty(r)\<close>
\<close>

definition "when" :: "('r \<Rightarrow> bool) \<Rightarrow> 'w resolvable \<Rightarrow> ('r, 'w) prpromise" where
  "when f a = (\<lambda>r. if f r then pure a r else empty_pr r)"







section \<open>Calling what an export returns\<close>

text \<open>
  JavaScript does not check that the result of a call is a function before it is called
  in turn. Seen without types, a value that the module exports or returns is a function
  or a promise; calling a function gives its result, calling a promise throws a
  \<^verbatim>\<open>TypeError\<close> (``is not a function'').
\<close>

datatype 'w jsvalue = Fn "'w resolvable \<Rightarrow> 'w jsvalue" | Pr "'w promise"

datatype jserror = TypeError

fun call :: "'w jsvalue \<Rightarrow> 'w resolvable \<Rightarrow> jserror + 'w jsvalue" where
  "call (Fn f) x = Inr (f x)"
| "call (Pr p) x = Inl TypeError"

text \<open>
  The two exports as such values. \<^verbatim>\<open>pure = (a) => (_) => Promise.resolve(a)\<close> is a
  function that returns a function that returns a promise;
  \<^verbatim>\<open>empty = () => Promise.reject()\<close> is a function that returns a promise.
\<close>

definition pure_js :: "'w jsvalue" where
  "pure_js = Fn (\<lambda>a. Fn (\<lambda>r. Pr (pure a r)))"

definition empty_js :: "'w jsvalue" where
  "empty_js = Fn (\<lambda>x. Pr (empty_pr x))"

text \<open>
  \<open>awaited\<close> waits for the promise that a call returned: a call that threw has thrown,
  and a function is not a promise. \<open>invoke_result v x r\<close> is \<^verbatim>\<open>v(x)(r)\<close>, awaited: the
  result of calling the export \<open>v\<close> with \<open>x\<close>, used as an effect on the environment \<open>r\<close>.
\<close>

fun awaited :: "jserror + 'w jsvalue \<Rightarrow> 'w \<Rightarrow> jserror + outcome \<times> 'w" where
  "awaited (Inl e) w = Inl e"
| "awaited (Inr (Pr p)) w = Inr (settle p w)"
| "awaited (Inr (Fn f)) w = Inl TypeError"

definition invoke_result ::
  "'w jsvalue \<Rightarrow> 'w resolvable \<Rightarrow> 'w resolvable \<Rightarrow> 'w \<Rightarrow> jserror + outcome \<times> 'w" where
  "invoke_result v x r w =
     (case call v x of
        Inl e \<Rightarrow> Inl e
      | Inr u \<Rightarrow> awaited (call u r) w)"

section \<open>Test doubles\<close>

text \<open>
  \<open>spy e\<close> behaves as \<open>e\<close> and appends the environment it was invoked with to a list
  kept beside the world: the list is the sequence of invocations of spied effects.
\<close>

definition spy :: "('r, 'w) prpromise \<Rightarrow> ('r, 'r list \<times> 'w) prpromise" where
  "spy e = (\<lambda>r. Promise (\<lambda>(seen, w).
     case settle (e r) w of (out, w') \<Rightarrow> (out, (seen @ [r], w'))))"

text \<open>
  \<open>scripted t out\<close> settles with the outcome \<open>out\<close> whatever the environment, and
  appends its tag \<open>t\<close> to the world, which is the list of the tags of the effects run
  so far.
\<close>

definition scripted :: "'t \<Rightarrow> outcome \<Rightarrow> ('r, 't list) prpromise" where
  "scripted t out = (\<lambda>_. Promise (\<lambda>tags. (out, tags @ [t])))"



section \<open>The sequential search, in the words of the specification\<close>

text \<open>
  ``Try \<^verbatim>\<open>f(items[0])\<close>; if it fails or yields \<^verbatim>\<open>null\<close>, try \<^verbatim>\<open>f(items[1])\<close>; continue;
  if every item fails or yields \<^verbatim>\<open>null\<close> (including the empty-list case), the composite
  effect fails; otherwise it succeeds with the first non-null value found, in list
  order.'' \<open>None\<close> stands for the failure of the search; each item's effect starts in the
  world the previous one left.
\<close>

fun firstNonNull ::
  "('a \<Rightarrow> ('r, 'w) prpromise) \<Rightarrow> 'a list \<Rightarrow> 'r \<Rightarrow> 'w \<Rightarrow> jsval option \<times> 'w" where
  "firstNonNull f [] r w = (None, w)"
| "firstNonNull f (x # xs) r w =
     (case settle (f x r) w of
        (Resolved v, w') \<Rightarrow> if v = JNull then firstNonNull f xs r w' else (Some v, w')
      | (Rejected e, w') \<Rightarrow> firstNonNull f xs r w')"

fun success_of :: "outcome \<times> 'w \<Rightarrow> jsval option \<times> 'w" where
  "success_of (Resolved v, w) = (Some v, w)"
| "success_of (Rejected e, w) = (None, w)"

fun fails_or_null :: "outcome \<Rightarrow> bool" where
  "fails_or_null (Resolved v) = (v = JNull)"
| "fails_or_null (Rejected e) = True"

fun is_failure :: "outcome \<Rightarrow> bool" where
  "is_failure (Resolved v) = False"
| "is_failure (Rejected e) = True"

section \<open>Fixtures\<close>

text \<open>
  The example of the specification for \<^verbatim>\<open>forEveryFirst\<close>: \<^verbatim>\<open>f(n)\<close> succeeds with
  \<^verbatim>\<open>null\<close> for \<^verbatim>\<open>n = 1\<close>, fails for \<^verbatim>\<open>n = 2\<close> and succeeds with \<^verbatim>\<open>n * 10\<close> otherwise;
  each effect records its item when it runs.
\<close>

definition tenfold :: "int \<Rightarrow> ('r, int list) prpromise" where
  "tenfold n = scripted n
     (if n = 1 then Resolved JNull
      else if n = 2 then Rejected (JStr ''not found'')
      else Resolved (JNum (n * 10)))"


section \<open>Settling the promises of the combinators\<close>

lemma settle_fulfilled: "settle (fulfilled a) w = (Resolved a, w)"
  by (simp add: fulfilled_def)

lemma settle_reject: "settle (promise_reject e) w = (Rejected e, w)"
  by (simp add: promise_reject_def)

lemma settle_then:
  "settle (promise_then p cb) w =
     (case settle p w of
        (Resolved a, w') \<Rightarrow> settle (cb a) w'
      | (Rejected e, w') \<Rightarrow> (Rejected e, w'))"
  by (simp add: promise_then_def)

lemma settle_catch:
  "settle (promise_catch p cb) w =
     (case settle p w of
        (Resolved a, w') \<Rightarrow> (Resolved a, w')
      | (Rejected e, w') \<Rightarrow> settle (cb e) w')"
  by (simp add: promise_catch_def)

lemma promise_eqI: "(\<And>w. settle p w = settle q w) \<Longrightarrow> p = q"
  by (cases p, cases q) (simp add: fun_eq_iff)

lemma promise_then_assoc:
  "promise_then (promise_then p k) h = promise_then p (\<lambda>b. promise_then (k b) h)"
  by (rule promise_eqI) (simp add: settle_then split: prod.splits outcome.splits)

lemma settle_pure: "settle (pure (Plain a) r) w = (Resolved a, w)"
  by (simp add: pure_def settle_fulfilled)

lemma settle_empty: "settle (empty_pr x) w = (Rejected JUndefined, w)"
  by (simp add: empty_pr_def settle_reject)

lemma settle_or:
  "settle (or_pr e1 e2 r) w =
     (case settle (e1 r) w of
        (Resolved a, w') \<Rightarrow> (Resolved a, w')
      | (Rejected x, w') \<Rightarrow> settle (e2 r) w')"
  by (simp add: or_pr_def settle_catch)

lemma settle_map:
  "settle (map_pr fn e r) w =
     (case settle (e r) w of
        (Resolved a, w') \<Rightarrow> (Resolved (fn a), w')
      | (Rejected x, w') \<Rightarrow> (Rejected x, w'))"
  by (simp add: map_pr_def settle_then settle_fulfilled split: prod.splits outcome.splits)



lemma settle_spy:
  "settle (spy e r) (seen, w) = (case settle (e r) w of (out, w') \<Rightarrow> (out, (seen @ [r], w')))"
  by (simp add: spy_def)

lemma settle_scripted: "settle (scripted t out r) tags = (out, tags @ [t])"
  by (simp add: scripted_def)



subsection \<open>The fold of \<^verbatim>\<open>then\<close>\<close>

text \<open>
  \<^verbatim>\<open>reduce\<close> nests the calls of \<^verbatim>\<open>then\<close> to the left; since \<^verbatim>\<open>then\<close> on promises is
  associative, the chain can be read from its head: run the effect, and on success
  continue with the first continuation's effect and the remaining continuations.
\<close>

lemma foldl_then_shift:
  "foldl (\<lambda>accPr f. promise_then accPr (\<lambda>b. f b r)) (promise_then p k) fns =
   promise_then p (\<lambda>b. foldl (\<lambda>accPr f. promise_then accPr (\<lambda>b. f b r)) (k b) fns)"
  by (induction fns arbitrary: k) (simp_all add: promise_then_assoc)

lemma then_pr_Nil: "then_pr e [] r = e r"
  by (simp add: then_pr_def)

lemma then_pr_Cons:
  "then_pr e (f # fns) r = promise_then (e r) (\<lambda>b. then_pr (f b) fns r)"
  by (simp add: then_pr_def foldl_then_shift)

lemma then_pr_append: "then_pr e (fs @ gs) r = then_pr (then_pr e fs) gs r"
  by (simp add: then_pr_def)

lemma then_pr_rejected:
  "settle (e r) w = (Rejected x, w') \<Longrightarrow> settle (then_pr e fns r) w = (Rejected x, w')"
  by (cases fns) (simp_all add: then_pr_Nil then_pr_Cons settle_then)

subsection \<open>The fold of \<^verbatim>\<open>or\<close> in \<^verbatim>\<open>forEveryFirst\<close>\<close>

lemma settle_then_rejectOnNull:
  "settle (then_pr e [rejectOnNull] r) w =
     (case settle (e r) w of
        (Resolved v, w') \<Rightarrow> if v = JNull then (Rejected JUndefined, w') else (Resolved v, w')
      | (Rejected x, w') \<Rightarrow> (Rejected x, w'))"
  by (simp add: then_pr_Cons then_pr_Nil settle_then rejectOnNull_def settle_empty settle_pure
      split: prod.splits outcome.splits)

text \<open>The fold only sees how its seed settles.\<close>

lemma fold_or_cong:
  "settle (p r) w = settle (q r) w0 \<Longrightarrow>
   settle (foldl (\<lambda>p x. or_pr p (then_pr (f x) [rejectOnNull])) p xs r) w =
   settle (foldl (\<lambda>p x. or_pr p (then_pr (f x) [rejectOnNull])) q xs r) w0"
proof (induction xs arbitrary: p q)
  case Nil
  then show ?case by simp
next
  case (Cons x xs)
  have "settle (or_pr p (then_pr (f x) [rejectOnNull]) r) w =
        settle (or_pr q (then_pr (f x) [rejectOnNull]) r) w0"
    using Cons.prems by (simp add: settle_or)
  then show ?case by (simp add: Cons.IH)
qed

lemma success_of_fold_or:
  "success_of (settle (foldl (\<lambda>p x. or_pr p (then_pr (f x) [rejectOnNull])) p xs r) w) =
     (case settle (p r) w of
        (Resolved v, w') \<Rightarrow> (Some v, w')
      | (Rejected e, w') \<Rightarrow> firstNonNull f xs r w')"
proof (induction xs arbitrary: p w)
  case Nil
  show ?case by (simp split: prod.splits outcome.splits)
next
  case (Cons x xs)
  show ?case
    by (simp add: Cons.IH settle_or settle_then_rejectOnNull split: prod.splits outcome.splits)
qed

lemma forEveryFirst_refines:
  "success_of (settle (forEveryFirst f xs r) w) = firstNonNull f xs r w"
  by (simp add: forEveryFirst_def success_of_fold_or settle_empty)

lemma firstNonNull_append:
  "firstNonNull f pre r w = (None, w1) \<Longrightarrow>
   firstNonNull f (pre @ post) r w = firstNonNull f post r w1"
  by (induction pre arbitrary: w) (auto split: prod.splits outcome.splits if_splits)

lemma firstNonNull_exhausted:
  "\<forall>x\<in>set xs. \<forall>w. fails_or_null (fst (settle (f x r) w)) \<Longrightarrow>
   fst (firstNonNull f xs r w) = None"
proof (induction xs arbitrary: w)
  case Nil
  show ?case by simp
next
  case (Cons x xs)
  have "fails_or_null (fst (settle (f x r) w))" using Cons.prems by simp
  moreover have "\<And>w'. fst (firstNonNull f xs r w') = None" using Cons by simp
  ultimately show ?case
    by (cases "settle (f x r) w") (auto split: outcome.splits)
qed

lemma success_of_Some: "success_of ow = (Some v, w') \<longleftrightarrow> ow = (Resolved v, w')"
  by (cases ow rule: success_of.cases) auto

lemma success_of_None: "fst (success_of ow) = None \<longleftrightarrow> is_failure (fst ow)"
  by (cases ow rule: success_of.cases) auto

section \<open>The claims\<close>

text \<open>
  In every statement below \<open>settle (e r) w = (out, w')\<close> reads: the effect \<open>e\<close>, invoked
  with the environment \<open>r\<close> in the world \<open>w\<close>, settles with the outcome \<open>out\<close> and leaves
  the world \<open>w'\<close>. An effect that is not invoked leaves no trace in the world, so a result
  that does not mention an effect holds whatever that effect would have done.
\<close>

subsection \<open>C1: \<^verbatim>\<open>forEveryFirst\<close> is the sequential search for the first non-null success\<close>

text \<open>
  Claim C1. For every function \<open>f\<close>, list \<open>xs\<close> and environment \<open>r\<close>, running
  \<open>forEveryFirst f xs\<close> with \<open>r\<close> tries the effects of the items in list order and,
  as far as success and the world are concerned, is the search \<open>firstNonNull\<close> written
  from the specification; on the empty list it fails; if the items of \<open>pre\<close> all fail
  or yield \<^verbatim>\<open>null\<close> and the next item \<open>x\<close> then succeeds with a value \<open>v\<close> that is not
  \<^verbatim>\<open>null\<close>, it succeeds with \<open>v\<close> and the effects of the later items \<open>post\<close> do not
  run; and it fails whenever every item fails or yields \<^verbatim>\<open>null\<close>.
\<close>

theorem forEveryFirst_first_non_null:
  "success_of (settle (forEveryFirst f xs r) w) = firstNonNull f xs r w \<and>
   settle (forEveryFirst f [] r) w = (Rejected JUndefined, w) \<and>
   (firstNonNull f pre r w = (None, w1) \<and> settle (f x r) w1 = (Resolved v, w2) \<and> v \<noteq> JNull
      \<longrightarrow> settle (forEveryFirst f (pre @ x # post) r) w = (Resolved v, w2)) \<and>
   ((\<forall>x\<in>set xs. \<forall>w. fails_or_null (fst (settle (f x r) w)))
      \<longrightarrow> is_failure (fst (settle (forEveryFirst f xs r) w)))"
proof (intro conjI impI)
  show "success_of (settle (forEveryFirst f xs r) w) = firstNonNull f xs r w"
    by (rule forEveryFirst_refines)
  show "settle (forEveryFirst f [] r) w = (Rejected JUndefined, w)"
    by (simp add: forEveryFirst_def settle_empty)
next
  assume a: "firstNonNull f pre r w = (None, w1) \<and> settle (f x r) w1 = (Resolved v, w2) \<and> v \<noteq> JNull"
  then have "firstNonNull f (pre @ x # post) r w = firstNonNull f (x # post) r w1"
    by (simp add: firstNonNull_append)
  also have "\<dots> = (Some v, w2)" using a by simp
  finally have "success_of (settle (forEveryFirst f (pre @ x # post) r) w) = (Some v, w2)"
    by (simp only: forEveryFirst_refines)
  then show "settle (forEveryFirst f (pre @ x # post) r) w = (Resolved v, w2)"
    by (simp only: success_of_Some)
next
  assume "\<forall>x\<in>set xs. \<forall>w. fails_or_null (fst (settle (f x r) w))"
  then have "fst (firstNonNull f xs r w) = None" by (rule firstNonNull_exhausted)
  then have "fst (success_of (settle (forEveryFirst f xs r) w)) = None"
    by (simp only: forEveryFirst_refines)
  then show "is_failure (fst (settle (forEveryFirst f xs r) w))"
    by (simp only: success_of_None)
qed

text \<open>
  The items \<^verbatim>\<open>[1, 2, 3]\<close> of the specification give 30 after the effects of 1, 2 and 3
  ran in this order; with \<^verbatim>\<open>[1, 3, 2]\<close> the effect of 2 does not run.
\<close>

theorem forEveryFirst_first_non_null_witness:
  "firstNonNull tenfold [1, 2] () [] = (None, [1, 2]) \<and>
   settle (tenfold 3 ()) [1, 2] = (Resolved (JNum 30), [1, 2, 3]) \<and>
   settle (forEveryFirst tenfold [1, 2, 3] ()) [] = (Resolved (JNum 30), [1, 2, 3]) \<and>
   settle (forEveryFirst tenfold [1, 3, 2] ()) [] = (Resolved (JNum 30), [1, 3]) \<and>
   is_failure (fst (settle (forEveryFirst tenfold [1, 2, 1] ()) [])) \<and>
   success_of (settle (forEveryFirst tenfold [2, 1] ()) []) = (None, [2, 1])"
proof -
  have h1: "firstNonNull tenfold [1, 2] () [] = (None, [1, 2])"
    by (simp add: tenfold_def settle_scripted)
  have h2: "settle (tenfold 3 ()) [1, 2] = (Resolved (JNum 30), [1, 2, 3])"
    by (simp add: tenfold_def settle_scripted)
  have h3: "firstNonNull tenfold [1] () [] = (None, [1])"
    by (simp add: tenfold_def settle_scripted)
  have h4: "settle (tenfold 3 ()) [1] = (Resolved (JNum 30), [1, 3])"
    by (simp add: tenfold_def settle_scripted)
  have h5: "\<forall>x\<in>set [1, 2, 1]. \<forall>w. fails_or_null (fst (settle (tenfold x ()) w))"
    by (simp add: tenfold_def settle_scripted)
  have h6: "firstNonNull tenfold [2, 1] () [] = (None, [2, 1])"
    by (simp add: tenfold_def settle_scripted)
  show ?thesis
    using h1 h2 h3 h4 h5 h6
      forEveryFirst_first_non_null [where f = tenfold and r = "()" and w = "[]"
        and pre = "[1, 2]" and x = 3 and post = "[]" and ?w1.0 = "[1, 2]"
        and v = "JNum 30" and ?w2.0 = "[1, 2, 3]" and xs = "[1, 2, 1]"]
      forEveryFirst_first_non_null [where f = tenfold and r = "()" and w = "[]"
        and pre = "[1]" and x = 3 and post = "[2]" and ?w1.0 = "[1]"
        and v = "JNum 30" and ?w2.0 = "[1, 3]" and xs = "[2, 1]"]
    by simp
qed

subsection \<open>C2: \<^verbatim>\<open>pure\<close> and \<^verbatim>\<open>empty\<close>\<close>

text \<open>
  Claim C2 says that \<^verbatim>\<open>pure(value)\<close> and \<^verbatim>\<open>empty()\<close> each return an effect, the first
  succeeding with the value and the second failing with no payload, for every
  environment; the documentation of \<^verbatim>\<open>empty\<close> (\<^verbatim>\<open>@returns {PRPromise<R,A>}\<close>) says the
  same. Evaluated on the code: invoking the result of \<^verbatim>\<open>empty()\<close> with an environment
  throws a \<^verbatim>\<open>TypeError\<close> instead of giving a rejected promise, because \<^verbatim>\<open>empty()\<close> is
  the promise \<^verbatim>\<open>Promise.reject()\<close> and not a function. It is the export \<^verbatim>\<open>empty\<close>
  itself that, invoked with an environment, fails with no payload; and the result of the
  sibling \<^verbatim>\<open>pure(a)\<close>, invoked with an environment, succeeds with \<open>a\<close>.
\<close>

theorem empty_called_throws_when_invoked:
  "invoke_result empty_js (Plain JUndefined) r w = Inl TypeError \<and>
   call (empty_js :: 'w jsvalue) (Plain JUndefined) = Inr (Pr (promise_reject JUndefined)) \<and>
   awaited (call empty_js r) w = Inr (Rejected JUndefined, w) \<and>
   invoke_result pure_js (Plain a) r w = Inr (Resolved a, w)"
  by (simp add: invoke_result_def empty_js_def pure_js_def empty_pr_def settle_reject
      settle_pure)

subsection \<open>C3: \<^verbatim>\<open>or\<close> is left-biased and falls back on failure only\<close>

text \<open>
  Claim C3. For all effects \<open>e1\<close>, \<open>e2\<close> and every environment \<open>r\<close>: if \<open>e1\<close> run with
  \<open>r\<close> succeeds with \<open>v\<close>, then \<open>or_pr e1 e2\<close> run with \<open>r\<close> succeeds with \<open>v\<close> and
  leaves the world as \<open>e1\<close> left it, whatever \<open>e2\<close> is: \<open>e2\<close> is not invoked. If \<open>e1\<close>
  fails, the outcome is exactly that of \<open>e2\<close> run with the same \<open>r\<close> in the world
  \<open>e1\<close> left.
\<close>

theorem or_left_bias_and_fallback:
  "(settle (e1 r) w = (Resolved v, w') \<longrightarrow> settle (or_pr e1 e2 r) w = (Resolved v, w')) \<and>
   (settle (e1 r) w = (Rejected x, w') \<longrightarrow> settle (or_pr e1 e2 r) w = settle (e2 r) w')"
  by (simp add: settle_or)

text \<open>
  With effects that record their runs: when \<open>e1\<close> succeeds only \<open>e1\<close> has run; when it
  fails, \<open>e1\<close> and then \<open>e2\<close> have run.
\<close>

theorem or_left_bias_and_fallback_witness:
  "settle (scripted ''e1'' (Resolved (JStr ''V'')) ()) [] = (Resolved (JStr ''V''), [''e1'']) \<and>
   settle (or_pr (scripted ''e1'' (Resolved (JStr ''V''))) (scripted ''e2'' (Rejected JUndefined)) ())
     [] = (Resolved (JStr ''V''), [''e1'']) \<and>
   settle (scripted ''e1'' (Rejected JUndefined) ()) [] = (Rejected JUndefined, [''e1'']) \<and>
   settle (or_pr (scripted ''e1'' (Rejected JUndefined)) (scripted ''e2'' (Resolved (JStr ''W''))) ())
     [] = (Resolved (JStr ''W''), [''e1'', ''e2''])"
proof -
  have h1: "settle (scripted ''e1'' (Resolved (JStr ''V'')) ()) [] = (Resolved (JStr ''V''), [''e1''])"
    by (simp add: settle_scripted)
  have h2: "settle (scripted ''e1'' (Rejected JUndefined) ()) [] = (Rejected JUndefined, [''e1''])"
    by (simp add: settle_scripted)
  show ?thesis
    using h1 h2
      or_left_bias_and_fallback [where ?e1.0 = "scripted ''e1'' (Resolved (JStr ''V''))"
        and r = "()" and w = "[]" and v = "JStr ''V''" and w' = "[''e1'']"
        and ?e2.0 = "scripted ''e2'' (Rejected JUndefined)"]
      or_left_bias_and_fallback [where ?e1.0 = "scripted ''e1'' (Rejected JUndefined)"
        and r = "()" and w = "[]" and x = JUndefined and w' = "[''e1'']"
        and ?e2.0 = "scripted ''e2'' (Resolved (JStr ''W''))"]
    by (simp add: settle_scripted)
qed

subsection \<open>C4: a failure short-circuits \<^verbatim>\<open>then\<close>\<close>

text \<open>
  Claim C4. If \<open>e\<close> fails, \<open>then_pr e fns\<close> fails with the same reason for every list
  of continuations, none of which is invoked. If the chain up to some stage succeeds with
  \<open>b\<close> and the effect \<open>f b\<close> of the next continuation fails, the whole chain fails with
  that reason and in the world that stage left, whatever the later continuations \<open>gs\<close>
  are: none of them is invoked.
\<close>

theorem then_short_circuits_on_failure:
  "(settle (e r) w = (Rejected x, w') \<longrightarrow> settle (then_pr e fns r) w = (Rejected x, w')) \<and>
   (settle (then_pr e fs r) w = (Resolved b, w1) \<and> settle (f b r) w1 = (Rejected x, w')
      \<longrightarrow> settle (then_pr e (fs @ f # gs) r) w = (Rejected x, w'))"
proof (intro conjI impI)
  assume "settle (e r) w = (Rejected x, w')"
  then show "settle (then_pr e fns r) w = (Rejected x, w')"
    by (rule then_pr_rejected)
next
  assume a: "settle (then_pr e fs r) w = (Resolved b, w1) \<and> settle (f b r) w1 = (Rejected x, w')"
  have "then_pr e (fs @ f # gs) r = then_pr (then_pr e fs) (f # gs) r"
    by (rule then_pr_append)
  also have "\<dots> = promise_then (then_pr e fs r) (\<lambda>b. then_pr (f b) gs r)"
    by (rule then_pr_Cons)
  finally have "settle (then_pr e (fs @ f # gs) r) w = settle (then_pr (f b) gs r) w1"
    using a by (simp add: settle_then)
  also have "\<dots> = (Rejected x, w')"
    using a by (simp add: then_pr_rejected)
  finally show "settle (then_pr e (fs @ f # gs) r) w = (Rejected x, w')" .
qed

text \<open>
  With effects that record their runs: after the failure of \<open>e\<close> nothing else has run;
  after the failure of the second continuation the third has not run.
\<close>

theorem then_short_circuits_on_failure_witness:
  "settle (scripted ''e'' (Rejected (JStr ''down'')) ()) [] = (Rejected (JStr ''down''), [''e'']) \<and>
   settle (then_pr (scripted ''e'' (Rejected (JStr ''down'')))
       [\<lambda>b. scripted ''f1'' (Resolved b), \<lambda>b. scripted ''f2'' (Resolved b)] ()) []
     = (Rejected (JStr ''down''), [''e'']) \<and>
   settle (then_pr (scripted ''e'' (Resolved (JNum 1))) [\<lambda>b. scripted ''f1'' (Resolved b)] ()) []
     = (Resolved (JNum 1), [''e'', ''f1'']) \<and>
   settle (scripted ''f2'' (Rejected (JStr ''boom'')) ()) [''e'', ''f1'']
     = (Rejected (JStr ''boom''), [''e'', ''f1'', ''f2'']) \<and>
   settle (then_pr (scripted ''e'' (Resolved (JNum 1)))
       ([\<lambda>b. scripted ''f1'' (Resolved b)] @ (\<lambda>b. scripted ''f2'' (Rejected (JStr ''boom'')))
          # [\<lambda>b. scripted ''f3'' (Resolved b)]) ()) []
     = (Rejected (JStr ''boom''), [''e'', ''f1'', ''f2''])"
proof -
  have h1: "settle (scripted ''e'' (Rejected (JStr ''down'')) ()) [] = (Rejected (JStr ''down''), [''e''])"
    by (simp add: settle_scripted)
  have h2: "settle (then_pr (scripted ''e'' (Resolved (JNum 1))) [\<lambda>b. scripted ''f1'' (Resolved b)] ()) []
     = (Resolved (JNum 1), [''e'', ''f1''])"
    by (simp add: then_pr_Cons then_pr_Nil settle_then settle_scripted)
  have h3: "settle (scripted ''f2'' (Rejected (JStr ''boom'')) ()) [''e'', ''f1'']
     = (Rejected (JStr ''boom''), [''e'', ''f1'', ''f2''])"
    by (simp add: settle_scripted)
  show ?thesis
    using h1 h2 h3
      then_short_circuits_on_failure [where e = "scripted ''e'' (Rejected (JStr ''down''))"
        and r = "()" and w = "[]" and x = "JStr ''down''" and w' = "[''e'']"
        and fns = "[\<lambda>b. scripted ''f1'' (Resolved b), \<lambda>b. scripted ''f2'' (Resolved b)]"]
      then_short_circuits_on_failure [where e = "scripted ''e'' (Resolved (JNum 1))"
        and r = "()" and w = "[]" and fs = "[\<lambda>b. scripted ''f1'' (Resolved b)]"
        and b = "JNum 1" and ?w1.0 = "[''e'', ''f1'']"
        and f = "\<lambda>b. scripted ''f2'' (Rejected (JStr ''boom''))"
        and x = "JStr ''boom''" and w' = "[''e'', ''f1'', ''f2'']"
        and gs = "[\<lambda>b. scripted ''f3'' (Resolved b)]"]
    by simp
qed

subsection \<open>C5: sequencing is associative\<close>

text \<open>
  Claim C5. For all effects \<open>e\<close>, continuations \<open>f\<close> and \<open>g\<close> and every environment,
  \<^verbatim>\<open>then(then(e, f), g)\<close> produces the same outcome, and the same world, as
  \<^verbatim>\<open>then(e, f, g)\<close>.
\<close>

theorem then_associative:
  "settle (then_pr (then_pr e [f]) [g] env) w = settle (then_pr e [f, g] env) w"
  by (simp add: then_pr_def)

subsection \<open>C6: identity laws\<close>

text \<open>
  Claim C6. For every effect \<open>e\<close> and environment, \<^verbatim>\<open>then(e)\<close> with no continuation and
  \<^verbatim>\<open>map(x => x, e)\<close> both yield the outcome of \<open>e\<close>.
\<close>

theorem then_and_map_identity:
  "settle (then_pr e [] env) w = settle (e env) w \<and>
   settle (map_pr (\<lambda>x. x) e env) w = settle (e env) w"
  by (simp add: then_pr_Nil settle_map split: prod.splits outcome.splits)

subsection \<open>C7: \<^verbatim>\<open>null\<close> is data, except in \<^verbatim>\<open>forEveryFirst\<close>\<close>

text \<open>
  Claim C7. \<^verbatim>\<open>or(pure(null), e2)\<close> succeeds with \<^verbatim>\<open>null\<close> without invoking \<open>e2\<close>; more
  generally, when an effect succeeds with \<^verbatim>\<open>null\<close>, \<^verbatim>\<open>or\<close> returns that success,
  \<^verbatim>\<open>map\<close> applies its function to \<^verbatim>\<open>null\<close> and \<^verbatim>\<open>then\<close> passes \<^verbatim>\<open>null\<close> to the first
  continuation. Inside \<^verbatim>\<open>forEveryFirst\<close> an item whose effect succeeds with \<^verbatim>\<open>null\<close> is
  passed over: the search goes on with the remaining items.
\<close>

theorem null_is_data_except_in_forEveryFirst:
  "settle (or_pr (pure (Plain JNull)) e2 r) w = (Resolved JNull, w) \<and>
   (settle (e1 r) w = (Resolved JNull, w') \<longrightarrow>
      settle (or_pr e1 e2 r) w = (Resolved JNull, w') \<and>
      settle (map_pr fn e1 r) w = (Resolved (fn JNull), w') \<and>
      settle (then_pr e1 (f # fns) r) w = settle (then_pr (f JNull) fns r) w') \<and>
   (settle (g x r) w = (Resolved JNull, w') \<longrightarrow>
      settle (forEveryFirst g (x # xs) r) w = settle (forEveryFirst g xs r) w')"
proof (intro conjI impI)
  show "settle (or_pr (pure (Plain JNull)) e2 r) w = (Resolved JNull, w)"
    by (simp add: settle_or settle_pure)
next
  assume "settle (e1 r) w = (Resolved JNull, w')"
  then show "settle (or_pr e1 e2 r) w = (Resolved JNull, w')"
    and "settle (map_pr fn e1 r) w = (Resolved (fn JNull), w')"
    and "settle (then_pr e1 (f # fns) r) w = settle (then_pr (f JNull) fns r) w'"
    by (simp_all add: settle_or settle_map then_pr_Cons settle_then)
next
  assume a: "settle (g x r) w = (Resolved JNull, w')"
  have "settle (or_pr empty_pr (then_pr (g x) [rejectOnNull]) r) w = settle (empty_pr r) w'"
    using a by (simp add: settle_or settle_empty settle_then_rejectOnNull)
  then show "settle (forEveryFirst g (x # xs) r) w = settle (forEveryFirst g xs r) w'"
    unfolding forEveryFirst_def foldl_Cons by (rule fold_or_cong)
qed

text \<open>
  With effects that record their runs: after a \<^verbatim>\<open>null\<close> success \<^verbatim>\<open>or\<close> does not run its
  second effect, while \<^verbatim>\<open>forEveryFirst\<close> runs the effect of the next item.
\<close>

theorem null_is_data_except_in_forEveryFirst_witness:
  "settle (scripted ''e1'' (Resolved JNull) ()) [] = (Resolved JNull, [''e1'']) \<and>
   settle (or_pr (scripted ''e1'' (Resolved JNull)) (scripted ''e2'' (Resolved (JNum 2))) ()) []
     = (Resolved JNull, [''e1'']) \<and>
   settle (map_pr (\<lambda>a. JBool (a = JNull)) (scripted ''e1'' (Resolved JNull)) ()) []
     = (Resolved (JBool True), [''e1'']) \<and>
   settle (then_pr (scripted ''e1'' (Resolved JNull)) [\<lambda>b. scripted ''f'' (Resolved (JBool (b = JNull)))] ()) []
     = (Resolved (JBool True), [''e1'', ''f'']) \<and>
   settle (forEveryFirst (\<lambda>t. scripted t (if t = ''e1'' then Resolved JNull else Resolved (JNum 2)))
       [''e1'', ''e2''] ()) []
     = (Resolved (JNum 2), [''e1'', ''e2''])"
proof -
  have h1: "settle (scripted ''e1'' (Resolved JNull) ()) [] = (Resolved JNull, [''e1''])"
    by (simp add: settle_scripted)
  have h2: "settle ((\<lambda>t. scripted t (if t = ''e1'' then Resolved JNull else Resolved (JNum 2))) ''e1'' ()) []
     = (Resolved JNull, [''e1''])"
    by (simp add: settle_scripted)
  have h3: "settle (forEveryFirst (\<lambda>t. scripted t (if t = ''e1'' then Resolved JNull else Resolved (JNum 2)))
       [''e2''] ()) [''e1''] = (Resolved (JNum 2), [''e1'', ''e2''])"
    by (simp add: forEveryFirst_def settle_or settle_empty settle_then_rejectOnNull settle_scripted)
  show ?thesis
    using h1 h2 h3
      null_is_data_except_in_forEveryFirst [where ?e1.0 = "scripted ''e1'' (Resolved JNull)"
        and r = "()" and w = "[]" and w' = "[''e1'']"
        and ?e2.0 = "scripted ''e2'' (Resolved (JNum 2))"
        and fn = "\<lambda>a. JBool (a = JNull)"
        and f = "\<lambda>b. scripted ''f'' (Resolved (JBool (b = JNull)))" and fns = "[]"
        and g = "\<lambda>t. scripted t (if t = ''e1'' then Resolved JNull else Resolved (JNum 2))"
        and x = "''e1''" and xs = "[''e2'']"]
    by (simp add: then_pr_Nil settle_scripted)
qed

subsection \<open>C8: \<^verbatim>\<open>extendConfig\<close> hands a fresh overlaid copy to the effect\<close>




subsection \<open>C9: \<^verbatim>\<open>then\<close> passes the same environment to every stage\<close>

text \<open>
  Claim C9. Run \<open>then_pr\<close> with the environment \<open>r\<close> on an effect and continuations
  whose effects are all spied on. Every invocation recorded during the run has the
  environment \<open>r\<close>: the first effect and the effect of each continuation that is reached
  are invoked once with \<open>r\<close> (all of them when the chain succeeds), and the run is that of
  the chain without the spies.
\<close>

theorem then_keeps_environment:
  "settle (then_pr (spy e) (map (\<lambda>f b. spy (f b)) fns) r) (seen, w) = (out, (seen', w')) \<Longrightarrow>
   (\<exists>n. seen' = seen @ replicate n r \<and> 1 \<le> n \<and> n \<le> Suc (length fns) \<and>
        (\<not> is_failure out \<longrightarrow> n = Suc (length fns))) \<and>
   settle (then_pr e fns r) w = (out, w')"
proof (induction fns arbitrary: e seen w)
  case Nil
  then show ?case
    by (auto simp add: then_pr_Nil settle_spy split: prod.splits intro: exI [of _ 1])
next
  case (Cons f fns)
  show ?case
  proof (cases "settle (e r) w")
    case (Pair out0 w0)
    show ?thesis
    proof (cases out0)
      case (Rejected x)
      with Pair Cons.prems have "out = Rejected x" "seen' = seen @ [r]" "w' = w0"
        by (simp_all add: then_pr_Cons settle_then settle_spy)
      with Pair Rejected show ?thesis
        by (auto simp add: then_pr_Cons settle_then intro: exI [of _ 1])
    next
      case (Resolved b)
      with Pair Cons.prems have
        "settle (then_pr (spy (f b)) (map (\<lambda>f b. spy (f b)) fns) r) (seen @ [r], w0)
           = (out, (seen', w'))"
        by (simp add: then_pr_Cons settle_then settle_spy)
      from Cons.IH [OF this] obtain n where
        n: "seen' = (seen @ [r]) @ replicate n r" "1 \<le> n" "n \<le> Suc (length fns)"
           "\<not> is_failure out \<longrightarrow> n = Suc (length fns)"
        and run: "settle (then_pr (f b) fns r) w0 = (out, w')"
        by blast
      have "seen' = seen @ replicate (Suc n) r" using n(1) by simp
      moreover have "settle (then_pr e (f # fns) r) w = (out, w')"
        using Pair Resolved run by (simp add: then_pr_Cons settle_then)
      ultimately show ?thesis using n(2-4) by (intro conjI exI [of _ "Suc n"]) simp_all
    qed
  qed
qed

text \<open>
  A chain of three continuations whose second fails: three invocations, each with the
  environment the chain was run with.
\<close>

theorem then_keeps_environment_witness:
  "settle (then_pr (spy (pure (Plain (JNum 1))))
       (map (\<lambda>f b. spy (f b)) [\<lambda>b. pure (Plain b), \<lambda>b. empty_pr, \<lambda>b. pure (Plain b)]) ''env'') ([], ())
     = (Rejected JUndefined, ([''env'', ''env'', ''env''], ())) \<and>
   [''env'', ''env'', ''env''] = replicate 3 ''env'' \<and>
   settle (then_pr (pure (Plain (JNum 1))) [\<lambda>b. pure (Plain b), \<lambda>b. empty_pr, \<lambda>b. pure (Plain b)] ''env'') ()
     = (Rejected JUndefined, ())"
proof -
  have h: "settle (then_pr (spy (pure (Plain (JNum 1))))
       (map (\<lambda>f b. spy (f b)) [\<lambda>b. pure (Plain b), \<lambda>b. empty_pr, \<lambda>b. pure (Plain b)]) ''env'') ([], ())
     = (Rejected JUndefined, ([''env'', ''env'', ''env''], ()))"
    by (simp add: then_pr_Cons then_pr_Nil settle_then settle_spy settle_pure settle_empty)
  show ?thesis
    using h then_keeps_environment [OF h]
    by (simp add: numeral_3_eq_3)
qed

subsection \<open>C10: \<^verbatim>\<open>or\<close> is associative\<close>

text \<open>
  Claim C10. For all effects \<open>e1\<close>, \<open>e2\<close>, \<open>e3\<close> and every environment \<open>r\<close>,
  \<^verbatim>\<open>or(or(e1, e2), e3)\<close> and \<^verbatim>\<open>or(e1, or(e2, e3))\<close> run with \<open>r\<close> produce the same
  outcome and leave the same world.
\<close>

theorem or_associative:
  "settle (or_pr (or_pr e1 e2) e3 r) w = settle (or_pr e1 (or_pr e2 e3) r) w"
  by (simp add: settle_or split: prod.splits outcome.splits)

end
